theory Spec2Isabelle
  imports Main
begin

section \<open>Event model shared by the parsers\<close>

text \<open>
  The dfdatetime values built by the parsers: \<^verbatim>\<open>PosixTime(timestamp=...)\<close> holds seconds,
  \<^verbatim>\<open>PosixTimeInMicroseconds(timestamp=...)\<close> holds microseconds since the Unix epoch.
\<close>

datatype date_time_values = PosixTime int | PosixTimeInMicroseconds int

text \<open>The timestamp roles of \<^verbatim>\<open>eventdata.EventTimestamp\<close> that the two source files use.\<close>

datatype EventTimestamp =
  ADDED_TIME | MODIFICATION_TIME | PAGE_VISITED | START_TIME | END_TIME

text \<open>\<^verbatim>\<open>time_events.DateTimeValuesEvent(date_time, timestamp_description)\<close>.\<close>

datatype event =
  DateTimeValuesEvent (date_time: date_time_values) (timestamp_desc: EventTimestamp)

subsection \<open>Python truthiness and \<^verbatim>\<open>or\<close> on column values\<close>

text \<open>
  A column of \<^verbatim>\<open>sqlite3.Row\<close> declared INTEGER reads as a Python int or \<^verbatim>\<open>None\<close>, a TEXT
  column as a string or \<^verbatim>\<open>None\<close>. \<^verbatim>\<open>if v:\<close> is false for \<^verbatim>\<open>None\<close>, for \<^verbatim>\<open>0\<close> and for the
  empty string.
\<close>

definition truthy_int :: "int option \<Rightarrow> bool" where
  "truthy_int v = (case v of None \<Rightarrow> False | Some n \<Rightarrow> n \<noteq> 0)"

text \<open>\<^verbatim>\<open>v or default\<close> for a text column and a text default.\<close>

definition or_str :: "string option \<Rightarrow> string \<Rightarrow> string" where
  "or_str v dflt = (case v of None \<Rightarrow> dflt | Some s \<Rightarrow> if s \<noteq> [] then s else dflt)"

text \<open>
  The page-visit handler compares the columns \<^verbatim>\<open>hidden\<close> and \<^verbatim>\<open>typed\<close> with the text
  literal \<^verbatim>\<open>u'1'\<close>. In Python an int never equals a string, so these two columns keep
  their dynamic SQLite type.
\<close>

datatype sql_value = NULL | INTEGER int | TEXT string

section \<open>Firefox: event data classes\<close>

text \<open>
  Each class of the source is a record. Field names are the attribute names of the source
  behind a prefix for the class, since several classes share attribute names:
  \<open>ae_\<close> for FirefoxPlacesBookmarkAnnotationEventData, \<open>fe_\<close> for
  FirefoxPlacesBookmarkFolderEventData, \<open>be_\<close> for FirefoxPlacesBookmarkEventData,
  \<open>ve_\<close> for FirefoxPlacesPageVisitedEventData and \<open>de_\<close> for FirefoxDownloadEventData.
  Every attribute starts as \<^verbatim>\<open>None\<close>, hence the option types.
\<close>

record FirefoxPlacesBookmarkAnnotationEventData =
  ae_content :: "string option"
  ae_offset :: "int option"
  ae_query :: "string option"
  ae_title :: "string option"
  ae_url :: "string option"

record FirefoxPlacesBookmarkFolderEventData =
  fe_offset :: "int option"
  fe_query :: "string option"
  fe_title :: "string option"

record FirefoxPlacesBookmarkEventData =
  be_host :: "string option"
  be_offset :: "int option"
  be_places_title :: "string option"
  be_query :: "string option"
  be_title :: "string option"
  be_type :: "string option"
  be_url :: "string option"
  be_visit_count :: "int option"

record FirefoxPlacesPageVisitedEventData =
  ve_extra :: "string list option"
  ve_host :: "string option"
  ve_offset :: "int option"
  ve_query :: "string option"
  ve_title :: "string option"
  ve_url :: "string option"
  ve_visit_count :: "int option"
  ve_visit_type :: "int option"

record FirefoxDownloadEventData =
  de_full_path :: "string option"
  de_mime_type :: "string option"
  de_name :: "string option"
  de_offset :: "int option"
  de_query :: "string option"
  de_received_bytes :: "int option"
  de_referrer :: "string option"
  de_temporary_location :: "string option"
  de_total_bytes :: "int option"
  de_url :: "string option"

text \<open>\<^verbatim>\<open>BashHistoryEventData\<close>: the command that was executed.\<close>

record BashHistoryEventData =
  command :: "string option"

text \<open>
  An \<^verbatim>\<open>events.EventData\<close> object is one of the concrete classes; the constructor plays the
  part of \<^verbatim>\<open>DATA_TYPE\<close>.
\<close>

datatype event_data =
  BookmarkAnnotation FirefoxPlacesBookmarkAnnotationEventData
| BookmarkFolder FirefoxPlacesBookmarkFolderEventData
| Bookmark FirefoxPlacesBookmarkEventData
| PageVisited FirefoxPlacesPageVisitedEventData
| Download FirefoxDownloadEventData
| BashHistory BashHistoryEventData

subsection \<open>The mediator\<close>

text \<open>
  The parser mediator forwards each produced pair to the storage sink. The model keeps
  the sequence of calls of \<^verbatim>\<open>ProduceEventWithEventData(event, event_data)\<close> in emission
  order; the second component is the event data object the call was given.
\<close>

type_synonym parser_mediator = "(event \<times> event_data) list"

definition ProduceEventWithEventData ::
  "parser_mediator \<Rightarrow> event \<Rightarrow> event_data \<Rightarrow> parser_mediator" where
  "ProduceEventWithEventData parser_mediator ev event_data = parser_mediator @ [(ev, event_data)]"

text \<open>
  The block every row handler repeats:
  \<^verbatim>\<open>
    timestamp = row[column]
    if timestamp:
      date_time = dfdatetime_posix_time.PosixTimeInMicroseconds(timestamp=timestamp)
      event = time_events.DateTimeValuesEvent(date_time, role)
      parser_mediator.ProduceEventWithEventData(event, event_data)
  \<close>
\<close>

definition produce_if_set ::
  "parser_mediator \<Rightarrow> int option \<Rightarrow> EventTimestamp \<Rightarrow> event_data \<Rightarrow> parser_mediator" where
  "produce_if_set parser_mediator timestamp role event_data =
     (case timestamp of
        None \<Rightarrow> parser_mediator
      | Some t \<Rightarrow>
          if t \<noteq> 0 then
            ProduceEventWithEventData parser_mediator
              (DateTimeValuesEvent (PosixTimeInMicroseconds t) role) event_data
          else parser_mediator)"

section \<open>Firefox: rows of the declared queries\<close>

text \<open>
  One record per query of \<^verbatim>\<open>QUERIES\<close>, a field per selected column: \<open>ar_c\<close> is
  \<^verbatim>\<open>row['c']\<close> of the bookmark annotation query, \<open>fr_c\<close> of the bookmark folder query,
  \<open>br_c\<close> of the bookmark query, \<open>vr_c\<close> of the page visit query and \<open>dr_c\<close> of the
  downloads query.
\<close>

record bookmark_annotation_row =
  ar_content :: "string option"
  ar_dateAdded :: "int option"
  ar_lastModified :: "int option"
  ar_title :: "string option"
  ar_url :: "string option"
  ar_rev_host :: "string option"
  ar_id :: "int option"

record bookmark_folder_row =
  fr_id :: "int option"
  fr_title :: "string option"
  fr_dateAdded :: "int option"
  fr_lastModified :: "int option"

record bookmark_row =
  br_type :: "int option"
  br_bookmark_title :: "string option"
  br_dateAdded :: "int option"
  br_lastModified :: "int option"
  br_url :: "string option"
  br_places_title :: "string option"
  br_rev_host :: "string option"
  br_visit_count :: "int option"
  br_id :: "int option"

record page_visited_row =
  vr_id :: "int option"
  vr_url :: "string option"
  vr_title :: "string option"
  vr_visit_count :: "int option"
  vr_visit_date :: "int option"
  vr_from_visit :: "int option"
  vr_rev_host :: "string option"
  vr_hidden :: sql_value
  vr_typed :: sql_value
  vr_visit_type :: "int option"

record downloads_row =
  dr_id :: "int option"
  dr_name :: "string option"
  dr_source :: "string option"
  dr_target :: "string option"
  dr_tempPath :: "string option"
  dr_startTime :: "int option"
  dr_endTime :: "int option"
  dr_state :: "int option"
  dr_referrer :: "string option"
  dr_currBytes :: "int option"
  dr_maxBytes :: "int option"
  dr_mimeType :: "string option"

section \<open>Firefox: row handlers without auxiliary lookups\<close>

text \<open>
  Each handler builds one event data object from the row, then runs the timestamp block
  once per timestamp column, passing that same object.
\<close>

definition ParseBookmarkAnnotationRow_event_data ::
  "bookmark_annotation_row \<Rightarrow> string option \<Rightarrow> event_data" where
  "ParseBookmarkAnnotationRow_event_data row q =
     BookmarkAnnotation
       \<lparr> ae_content = ar_content row,
         ae_offset = ar_id row,
         ae_query = q,
         ae_title = ar_title row,
         ae_url = ar_url row \<rparr>"

definition ParseBookmarkAnnotationRow ::
  "parser_mediator \<Rightarrow> bookmark_annotation_row \<Rightarrow> string option \<Rightarrow> parser_mediator" where
  "ParseBookmarkAnnotationRow parser_mediator row q =
     (let event_data = ParseBookmarkAnnotationRow_event_data row q;
          parser_mediator =
            produce_if_set parser_mediator (ar_dateAdded row) ADDED_TIME event_data
      in produce_if_set parser_mediator (ar_lastModified row) MODIFICATION_TIME event_data)"

definition ParseBookmarkFolderRow_event_data ::
  "bookmark_folder_row \<Rightarrow> string option \<Rightarrow> event_data" where
  "ParseBookmarkFolderRow_event_data row q =
     BookmarkFolder
       \<lparr> fe_offset = fr_id row,
         fe_query = q,
         fe_title = Some (or_str (fr_title row) ''N/A'') \<rparr>"

definition ParseBookmarkFolderRow ::
  "parser_mediator \<Rightarrow> bookmark_folder_row \<Rightarrow> string option \<Rightarrow> parser_mediator" where
  "ParseBookmarkFolderRow parser_mediator row q =
     (let event_data = ParseBookmarkFolderRow_event_data row q;
          parser_mediator =
            produce_if_set parser_mediator (fr_dateAdded row) ADDED_TIME event_data
      in produce_if_set parser_mediator (fr_lastModified row) MODIFICATION_TIME event_data)"

text \<open>\<^verbatim>\<open>_BOOKMARK_TYPES.get(row['type'], u'N/A')\<close>.\<close>

definition BOOKMARK_TYPES_get :: "int option \<Rightarrow> string" where
  "BOOKMARK_TYPES_get k =
     (if k = Some 1 then ''URL''
      else if k = Some 2 then ''Folder''
      else if k = Some 3 then ''Separator''
      else ''N/A'')"

definition ParseBookmarkRow_event_data :: "bookmark_row \<Rightarrow> string option \<Rightarrow> event_data" where
  "ParseBookmarkRow_event_data row q =
     Bookmark
       \<lparr> be_host = Some (or_str (br_rev_host row) ''N/A''),
         be_offset = br_id row,
         be_places_title = br_places_title row,
         be_query = q,
         be_title = br_bookmark_title row,
         be_type = Some (BOOKMARK_TYPES_get (br_type row)),
         be_url = br_url row,
         be_visit_count = br_visit_count row \<rparr>"

definition ParseBookmarkRow ::
  "parser_mediator \<Rightarrow> bookmark_row \<Rightarrow> string option \<Rightarrow> parser_mediator" where
  "ParseBookmarkRow parser_mediator row q =
     (let event_data = ParseBookmarkRow_event_data row q;
          parser_mediator =
            produce_if_set parser_mediator (br_dateAdded row) ADDED_TIME event_data
      in produce_if_set parser_mediator (br_lastModified row) MODIFICATION_TIME event_data)"

definition ParseDownloadsRow_event_data :: "downloads_row \<Rightarrow> string option \<Rightarrow> event_data" where
  "ParseDownloadsRow_event_data row q =
     Download
       \<lparr> de_full_path = dr_target row,
         de_mime_type = dr_mimeType row,
         de_name = dr_name row,
         de_offset = dr_id row,
         de_query = q,
         de_received_bytes = dr_currBytes row,
         de_referrer = dr_referrer row,
         de_temporary_location = dr_tempPath row,
         de_total_bytes = dr_maxBytes row,
         de_url = dr_source row \<rparr>"

definition ParseDownloadsRow ::
  "parser_mediator \<Rightarrow> downloads_row \<Rightarrow> string option \<Rightarrow> parser_mediator" where
  "ParseDownloadsRow parser_mediator row q =
     (let event_data = ParseDownloadsRow_event_data row q;
          parser_mediator =
            produce_if_set parser_mediator (dr_startTime row) START_TIME event_data
      in produce_if_set parser_mediator (dr_endTime row) END_TIME event_data)"

section \<open>Firefox: hostname reversal\<close>

text \<open>
  \<^verbatim>\<open>
  def _ReverseHostname(self, hostname):
    if not hostname:
      return u''
    if len(hostname) > 1:
      if hostname[-1] == '.':
        return hostname[::-1][1:]
      else:
        return hostname[::-1][0:]
    return hostname
  \<close>
  The argument is a TEXT column: a string or \<^verbatim>\<open>None\<close>.
\<close>

definition ReverseHostname :: "string option \<Rightarrow> string" where
  "ReverseHostname hostname =
     (case hostname of
        None \<Rightarrow> []
      | Some h \<Rightarrow>
          if h = [] then []
          else if length h > 1 then
            (if last h = CHR ''.'' then drop 1 (rev h) else drop 0 (rev h))
          else h)"

section \<open>Firefox: the auxiliary URL lookup\<close>

datatype error = ParseError string | AttributeError

text \<open>
  The tables the page visit query and the cache query read, with the columns those two
  queries select. \<^verbatim>\<open>id\<close> is the integer primary key of its table.
\<close>

record moz_places_row =
  p_id :: int
  p_url :: "string option"
  p_title :: "string option"
  p_visit_count :: "int option"
  p_rev_host :: "string option"
  p_hidden :: sql_value
  p_typed :: sql_value

record moz_historyvisits_row =
  h_id :: int
  h_place_id :: "int option"
  h_visit_date :: "int option"
  h_from_visit :: "int option"
  h_visit_type :: "int option"

text \<open>
  The database handle: the two tables and the texts of the queries executed through
  \<^verbatim>\<open>database.Query\<close> so far, oldest first.
\<close>

record SQLiteDatabase =
  moz_places :: "moz_places_row list"
  moz_historyvisits :: "moz_historyvisits_row list"
  executed :: "string list"

definition URL_CACHE_QUERY :: string where
  "URL_CACHE_QUERY =
     ''SELECT h.id AS id, p.url, p.rev_host FROM moz_places p, '' @
     ''moz_historyvisits h WHERE p.id = h.place_id''"

definition PAGE_VISITED_QUERY :: string where
  "PAGE_VISITED_QUERY =
     ''SELECT moz_historyvisits.id, moz_places.url, moz_places.title, '' @
     ''moz_places.visit_count, moz_historyvisits.visit_date, '' @
     ''moz_historyvisits.from_visit, moz_places.rev_host, '' @
     ''moz_places.hidden, moz_places.typed, moz_historyvisits.visit_type '' @
     ''FROM moz_places, moz_historyvisits '' @
     ''WHERE moz_places.id = moz_historyvisits.place_id''"

text \<open>
  Both queries select from \<^verbatim>\<open>moz_places, moz_historyvisits\<close> under the same condition
  \<^verbatim>\<open>moz_places.id = moz_historyvisits.place_id\<close>: the pairs of a place and a visit of it.
  A NULL \<^verbatim>\<open>place_id\<close> equals no id.
\<close>

definition places_join_historyvisits ::
  "SQLiteDatabase \<Rightarrow> (moz_places_row \<times> moz_historyvisits_row) list" where
  "places_join_historyvisits database =
     concat (map (\<lambda>p. map (\<lambda>h. (p, h))
                         (filter (\<lambda>h. h_place_id h = Some (p_id p)) (moz_historyvisits database)))
                 (moz_places database))"

text \<open>A row of \<^verbatim>\<open>URL_CACHE_QUERY\<close>: the columns \<^verbatim>\<open>id\<close>, \<^verbatim>\<open>url\<close> and \<^verbatim>\<open>rev_host\<close>.\<close>

record url_cache_row =
  cr_id :: int
  cr_url :: "string option"
  cr_rev_host :: "string option"

definition url_cache_row_of :: "moz_places_row \<times> moz_historyvisits_row \<Rightarrow> url_cache_row" where
  "url_cache_row_of ph =
     \<lparr> cr_id = h_id (snd ph), cr_url = p_url (fst ph), cr_rev_host = p_rev_host (fst ph) \<rparr>"

definition page_visited_row_of ::
  "moz_places_row \<times> moz_historyvisits_row \<Rightarrow> page_visited_row" where
  "page_visited_row_of ph =
     \<lparr> vr_id = Some (h_id (snd ph)),
       vr_url = p_url (fst ph),
       vr_title = p_title (fst ph),
       vr_visit_count = p_visit_count (fst ph),
       vr_visit_date = h_visit_date (snd ph),
       vr_from_visit = h_from_visit (snd ph),
       vr_rev_host = p_rev_host (fst ph),
       vr_hidden = p_hidden (fst ph),
       vr_typed = p_typed (fst ph),
       vr_visit_type = h_visit_type (snd ph) \<rparr>"

text \<open>
  Modelled from the spec: \<^verbatim>\<open>database.Query\<close> (the relational query execution of the
  collaborator interface, \<^verbatim>\<open>Query(text) -> rows\<close>) is not in the source. Executing a query
  returns its rows and is recorded in the handle.
\<close>

definition Query_URL_CACHE_QUERY ::
  "SQLiteDatabase \<Rightarrow> url_cache_row list \<times> SQLiteDatabase" where
  "Query_URL_CACHE_QUERY database =
     (map url_cache_row_of (places_join_historyvisits database),
      database\<lparr>executed := executed database @ [URL_CACHE_QUERY]\<rparr>)"

definition Query_PAGE_VISITED_QUERY ::
  "SQLiteDatabase \<Rightarrow> page_visited_row list \<times> SQLiteDatabase" where
  "Query_PAGE_VISITED_QUERY database =
     (map page_visited_row_of (places_join_historyvisits database),
      database\<lparr>executed := executed database @ [PAGE_VISITED_QUERY]\<rparr>)"

text \<open>
  A Python dict from a row key to the list of the cached column values, newest binding
  first; \<^verbatim>\<open>d[k] = v\<close> shadows an older binding of \<^verbatim>\<open>k\<close>, \<^verbatim>\<open>not d\<close> holds of the empty dict.
\<close>

type_synonym url_dict = "(int \<times> (string option \<times> string option)) list"

definition dict_get ::
  "url_dict \<Rightarrow> int \<Rightarrow> string option \<times> string option \<Rightarrow> string option \<times> string option" where
  "dict_get d k dflt = (case map_of d k of None \<Rightarrow> dflt | Some v \<Rightarrow> v)"

text \<open>
  Modelled from the spec: the Result Cache (\<^verbatim>\<open>SQLiteCache\<close>, with \<^verbatim>\<open>GetResults\<close> and
  \<^verbatim>\<open>CacheQueryResults\<close>) is not in the source. A cache entry is keyed by the cache name;
  its value is a mapping from a row key to the tuple of the dependent columns, built from
  all rows of the auxiliary query and stored under that name. A name never stored reads
  as \<^verbatim>\<open>None\<close>.
\<close>

type_synonym SQLiteCache = "string \<Rightarrow> url_dict option"

definition GetResults :: "SQLiteCache \<Rightarrow> string \<Rightarrow> url_dict option" where
  "GetResults cache attribute_name = cache attribute_name"

definition CacheQueryResults ::
  "SQLiteCache \<Rightarrow> url_cache_row list \<Rightarrow> string \<Rightarrow> (url_cache_row \<Rightarrow> int) \<Rightarrow>
   (url_cache_row \<Rightarrow> string option) \<times> (url_cache_row \<Rightarrow> string option) \<Rightarrow> SQLiteCache" where
  "CacheQueryResults cache sql_results attribute_name key_name column_names =
     cache(attribute_name \<mapsto>
       fold (\<lambda>row d. (key_name row, (fst column_names row, snd column_names row)) # d)
            sql_results [])"

text \<open>\<^verbatim>\<open>not url_cache_results\<close>: true of \<^verbatim>\<open>None\<close> and of the empty dict.\<close>

definition not_results :: "url_dict option \<Rightarrow> bool" where
  "not_results r = (case r of None \<Rightarrow> True | Some d \<Rightarrow> d = [])"

text \<open>
  \<^verbatim>\<open>
  def _GetUrl(self, url_id, cache, database):
    url_cache_results = cache.GetResults(u'url')
    if not url_cache_results:
      result_set = database.Query(self.URL_CACHE_QUERY)
      cache.CacheQueryResults(result_set, 'url', 'id', ('url', 'rev_host'))
      url_cache_results = cache.GetResults(u'url')
    url, reverse_host = url_cache_results.get(url_id, [u'', u''])
    if not url:
      return u''
    hostname = self._ReverseHostname(reverse_host)
    return u'{0:s} ({1:s})'.format(url, hostname)
  \<close>
  The cache and the database handle are mutated in place; the model returns them. Calling
  \<^verbatim>\<open>.get\<close> on \<^verbatim>\<open>None\<close> raises \<^verbatim>\<open>AttributeError\<close>.
\<close>

definition GetUrl ::
  "int \<Rightarrow> SQLiteCache \<Rightarrow> SQLiteDatabase \<Rightarrow> (error + string) \<times> SQLiteCache \<times> SQLiteDatabase" where
  "GetUrl url_id cache database =
     (let url_cache_results = GetResults cache ''url'';
          (url_cache_results, cache, database) =
            (if not_results url_cache_results then
               (let (result_set, database) = Query_URL_CACHE_QUERY database;
                    cache = CacheQueryResults cache result_set ''url'' cr_id (cr_url, cr_rev_host)
                in (GetResults cache ''url'', cache, database))
             else (url_cache_results, cache, database))
      in case url_cache_results of
           None \<Rightarrow> (Inl AttributeError, cache, database)
         | Some d \<Rightarrow>
             (let (url, reverse_host) = dict_get d url_id (Some [], Some [])
              in case url of
                   None \<Rightarrow> (Inr [], cache, database)
                 | Some u \<Rightarrow>
                     if u = [] then (Inr [], cache, database)
                     else (Inr (u @ '' ('' @ ReverseHostname reverse_host @ '')''),
                           cache, database)))"

section \<open>Firefox: the page visit handler\<close>

text \<open>
  \<^verbatim>\<open>
    extras = []
    if row['from_visit']:
      extras.append(u'visited from: {0:s}'.format(
          self._GetUrl(row['from_visit'], cache, database)))
    if row['hidden'] == u'1':
      extras.append(u'(url hidden)')
    if row['typed'] == u'1':
      extras.append(u'(directly typed)')
    else:
      extras.append(u'(URL not typed directly)')
  \<close>
  The first step may call \<^verbatim>\<open>_GetUrl\<close>, so it returns the cache and the database handle too.
\<close>

definition visited_from ::
  "page_visited_row \<Rightarrow> SQLiteCache \<Rightarrow> SQLiteDatabase \<Rightarrow>
   (error + string list) \<times> SQLiteCache \<times> SQLiteDatabase" where
  "visited_from row cache database =
     (case vr_from_visit row of
        None \<Rightarrow> (Inr [], cache, database)
      | Some from_visit \<Rightarrow>
          if from_visit = 0 then (Inr [], cache, database)
          else (case GetUrl from_visit cache database of
                  (Inl e, cache, database) \<Rightarrow> (Inl e, cache, database)
                | (Inr u, cache, database) \<Rightarrow>
                    (Inr ([] @ [''visited from: '' @ u]), cache, database)))"

definition hidden_and_typed :: "page_visited_row \<Rightarrow> string list \<Rightarrow> string list" where
  "hidden_and_typed row extras =
     (let extras = (if vr_hidden row = TEXT ''1'' then extras @ [''(url hidden)''] else extras)
      in if vr_typed row = TEXT ''1'' then extras @ [''(directly typed)'']
         else extras @ [''(URL not typed directly)''])"

text \<open>
  The event data of the row: the attributes copied from the row, then
  \<^verbatim>\<open>if extras: event_data.extra = extras\<close>.
\<close>

definition ParsePageVisitedRow_event_data ::
  "page_visited_row \<Rightarrow> string option \<Rightarrow> string list \<Rightarrow> event_data" where
  "ParsePageVisitedRow_event_data row q extras =
     (let event_data =
            \<lparr> ve_extra = None,
              ve_host = Some (ReverseHostname (vr_rev_host row)),
              ve_offset = vr_id row,
              ve_query = q,
              ve_title = vr_title row,
              ve_url = vr_url row,
              ve_visit_count = vr_visit_count row,
              ve_visit_type = vr_visit_type row \<rparr>
      in PageVisited (if extras \<noteq> [] then event_data\<lparr>ve_extra := Some extras\<rparr> else event_data))"

text \<open>
  The handler. An exception leaves the mediator as it was when raised and propagates, so
  the result is the exception or normal completion, with the mediator, the cache and the
  database handle after the call.
\<close>

type_synonym plugin_state = "parser_mediator \<times> SQLiteCache \<times> SQLiteDatabase"

definition ParsePageVisitedRow ::
  "parser_mediator \<Rightarrow> page_visited_row \<Rightarrow> SQLiteCache \<Rightarrow> SQLiteDatabase \<Rightarrow> string option \<Rightarrow>
   (error + unit) \<times> plugin_state" where
  "ParsePageVisitedRow parser_mediator row cache database q =
     (case visited_from row cache database of
        (Inl e, cache, database) \<Rightarrow> (Inl e, parser_mediator, cache, database)
      | (Inr extras, cache, database) \<Rightarrow>
          (let extras = hidden_and_typed row extras;
               event_data = ParsePageVisitedRow_event_data row q extras
           in (Inr (),
               produce_if_set parser_mediator (vr_visit_date row) PAGE_VISITED event_data,
               cache, database)))"

text \<open>
  Modelled from the spec: the Query Engine's loop (\<^verbatim>\<open>interface.SQLitePlugin\<close>) is not in the
  source. For a query it executes the query to completion and invokes the bound row
  handler once per returned row, passing the row, the shared Result Cache, the handle to
  the source and the originating query text. A handler's exception ends the plugin's run.
\<close>

fun ParseRows :: "page_visited_row list \<Rightarrow> plugin_state \<Rightarrow> (error + unit) \<times> plugin_state" where
  "ParseRows [] st = (Inr (), st)"
| "ParseRows (row # rows) (parser_mediator, cache, database) =
     (case ParsePageVisitedRow parser_mediator row cache database (Some PAGE_VISITED_QUERY) of
        (Inl e, st) \<Rightarrow> (Inl e, st)
      | (Inr u, st) \<Rightarrow> ParseRows rows st)"

text \<open>
  One invocation of the page visit query on one source: a fresh cache, the query, then
  the handler on every row.
\<close>

definition Process_page_visited ::
  "parser_mediator \<Rightarrow> SQLiteDatabase \<Rightarrow> (error + unit) \<times> plugin_state" where
  "Process_page_visited parser_mediator database =
     (let (rows, database) = Query_PAGE_VISITED_QUERY database
      in ParseRows rows (parser_mediator, (\<lambda>name. None), database))"

section \<open>Bash history: the pyparsing grammar\<close>

text \<open>
  The parsers below work on the text that remains at the current location. pyparsing skips
  the characters of \<^verbatim>\<open>DEFAULT_WHITE_CHARS = " \n\t\r"\<close> before every element of a sequence
  (\<^verbatim>\<open>preParse\<close>), except before the first element when the caller has skipped already.
\<close>

definition white :: "char \<Rightarrow> bool" where
  "white c = (c = CHR '' '' \<or> c = CHR 0x0A \<or> c = CHR 0x09 \<or> c = CHR 0x0D)"

definition preParse :: "string \<Rightarrow> string" where
  "preParse s = dropWhile white s"

text \<open>\<^verbatim>\<open>pyparsing.nums\<close>, also the class \<^verbatim>\<open>\d\<close> of a pattern compiled without re.UNICODE.\<close>

definition nums :: "char \<Rightarrow> bool" where
  "nums c = (c \<in> set ''0123456789'')"

text \<open>
  Modelled from the spec: \<^verbatim>\<open>text_parser.PyParseIntCast\<close> is not in the source. The anchor's
  digits are read as a decimal integer.
\<close>

definition PyParseIntCast :: "string \<Rightarrow> int" where
  "PyParseIntCast token = foldl (\<lambda>n c. 10 * n + (int (of_char c) - 48)) 0 token"

text \<open>
  \<^verbatim>\<open>pyparsing.Word(pyparsing.nums, min=9, max=10)\<close>: the first character must be a digit; up
  to ten digits are taken; the match fails when fewer than nine were taken, and when a
  digit follows the taken ones.
\<close>

definition Word_nums_9_10 :: "string \<Rightarrow> (string \<times> string) option" where
  "Word_nums_9_10 s =
     (let token = takeWhile nums (take 10 s);
          rest = drop (length token) s
      in if token = [] then None
         else if length token < 9 then None
         else if rest \<noteq> [] \<and> nums (hd rest) then None
         else Some (token, rest))"

text \<open>
  \<^verbatim>\<open>_TIMESTAMP = Suppress(u'#') + Word(nums, min=9, max=10).setParseAction(PyParseIntCast)\<close>,
  at the location itself (the caller decides whether to skip whitespace first). The
  literal is suppressed; the word is the second element of the sequence, so whitespace
  before it is skipped.
\<close>

definition TIMESTAMP :: "string \<Rightarrow> (int \<times> string) option" where
  "TIMESTAMP s =
     (case s of
        [] \<Rightarrow> None
      | c # r \<Rightarrow>
          if c = CHR ''#'' then
            (case Word_nums_9_10 (preParse r) of
               None \<Rightarrow> None
             | Some (token, rest) \<Rightarrow> Some (PyParseIntCast token, rest))
          else None)"

text \<open>
  The lookahead \<^verbatim>\<open>(?=($|\n#\d{10}))\<close> of \<^verbatim>\<open>_COMMAND\<close>. Without re.MULTILINE, \<^verbatim>\<open>$\<close> holds at
  the end of the text and just before a newline that ends the text.
\<close>

definition COMMAND_lookahead :: "string \<Rightarrow> bool" where
  "COMMAND_lookahead s =
     (s = [] \<or> s = [CHR 0x0A] \<or>
      (case s of
         c # d # r \<Rightarrow> c = CHR 0x0A \<and> d = CHR ''#'' \<and> length r \<ge> 10 \<and> list_all nums (take 10 r)
       | _ \<Rightarrow> False))"

text \<open>
  \<^verbatim>\<open>_COMMAND = pyparsing.Regex(r'.*?(?=($|\n#\d{10}))', re.DOTALL)\<close>: the lazy \<^verbatim>\<open>.*?\<close> takes
  any character, newlines too, and stops at the first location where the lookahead holds.
  The result is the matched text and the text after it. The lookahead holds at the end of
  the text, so the pattern always matches.
\<close>

fun COMMAND :: "string \<Rightarrow> string \<times> string" where
  "COMMAND [] = ([], [])"
| "COMMAND (c # cs) =
     (if COMMAND_lookahead (c # cs) then ([], c # cs)
      else (case COMMAND cs of (m, r) \<Rightarrow> (c # m, r)))"

text \<open>
  \<^verbatim>\<open>pyparsing.lineEnd()\<close>: its whitespace excludes the newline; it matches one newline, or
  the end of the text.
\<close>

definition lineEnd :: "string \<Rightarrow> string option" where
  "lineEnd s =
     (case dropWhile (\<lambda>c. white c \<and> c \<noteq> CHR 0x0A) s of
        [] \<Rightarrow> Some []
      | c # r \<Rightarrow> if c = CHR 0x0A then Some r else None)"

text \<open>
  The named results of a match of \<^verbatim>\<open>_LINE_GRAMMAR\<close>, the \<^verbatim>\<open>structure\<close> argument of
  \<^verbatim>\<open>ParseRecord\<close>: \<open>r_timestamp\<close> is \<^verbatim>\<open>structure.timestamp\<close>, \<open>r_command\<close> is
  \<^verbatim>\<open>structure.command\<close>.
\<close>

record ParseResults =
  r_timestamp :: int
  r_command :: string

text \<open>
  \<^verbatim>\<open>_LINE_GRAMMAR = _TIMESTAMP + _COMMAND + pyparsing.lineEnd()\<close>, matched at the start of the
  given text: the structure and the text after the match, or no match.
\<close>

definition LINE_GRAMMAR :: "string \<Rightarrow> (ParseResults \<times> string) option" where
  "LINE_GRAMMAR s =
     (case TIMESTAMP s of
        None \<Rightarrow> None
      | Some (t, r) \<Rightarrow>
          (case COMMAND (preParse r) of
             (m, r') \<Rightarrow>
               (case lineEnd r' of
                  None \<Rightarrow> None
                | Some r'' \<Rightarrow> Some (\<lparr>r_timestamp = t, r_command = m\<rparr>, r''))))"

subsection \<open>The verification grammar\<close>

text \<open>The class \<^verbatim>\<open>\s\<close> of a pattern compiled without re.UNICODE: \<^verbatim>\<open>[ \t\n\r\f\v]\<close>.\<close>

definition re_space :: "char \<Rightarrow> bool" where
  "re_space c = (white c \<or> c = CHR 0x0C \<or> c = CHR 0x0B)"

text \<open>
  \<^verbatim>\<open>pyparsing.Regex(r'^\s?[^#].*?$', re.MULTILINE)\<close> at a location; \<open>bol\<close> says that the
  location is the start of the text or follows a newline, which is where \<^verbatim>\<open>^\<close> holds.
  \<^verbatim>\<open>\s?\<close> is greedy: it takes a whitespace character when the character after that is not
  \<^verbatim>\<open>#\<close>, and nothing otherwise. \<^verbatim>\<open>[^#]\<close> takes any other character, a newline too. \<^verbatim>\<open>.*?$\<close>
  then runs to the next newline or to the end of the text. The result is the text after
  the match.
\<close>

definition line_start_regex :: "bool \<Rightarrow> string \<Rightarrow> string option" where
  "line_start_regex bol s =
     (if \<not> bol then None
      else (case s of
              [] \<Rightarrow> None
            | w # t \<Rightarrow>
                (case (if re_space w then t else []) of
                   x # r \<Rightarrow>
                     if x \<noteq> CHR ''#'' then Some (dropWhile (\<lambda>c. c \<noteq> CHR 0x0A) r)
                     else if w \<noteq> CHR ''#'' then Some (dropWhile (\<lambda>c. c \<noteq> CHR 0x0A) t)
                     else None
                 | [] \<Rightarrow>
                     if w \<noteq> CHR ''#'' then Some (dropWhile (\<lambda>c. c \<noteq> CHR 0x0A) t)
                     else None)))"

text \<open>
  \<^verbatim>\<open>pyparsing.pythonStyleComment\<close> is \<^verbatim>\<open>Regex(r"#.*")\<close>; \<^verbatim>\<open>NotAny\<close> tries it at the location,
  which skips whitespace first, and succeeds when it does not match.
\<close>

definition pythonStyleComment :: "string \<Rightarrow> bool" where
  "pythonStyleComment s = (case preParse s of [] \<Rightarrow> False | c # r \<Rightarrow> c = CHR ''#'')"

text \<open>
  \<^verbatim>\<open>
  _VERIFICATION_GRAMMAR = (
      pyparsing.Regex(r'^\s?[^#].*?$', re.MULTILINE) + _TIMESTAMP +
      pyparsing.NotAny(pyparsing.pythonStyleComment))
  \<close>
  at a location: whether the sequence matches there.
\<close>

definition VERIFICATION_GRAMMAR :: "bool \<Rightarrow> string \<Rightarrow> bool" where
  "VERIFICATION_GRAMMAR bol s =
     (case line_start_regex bol s of
        None \<Rightarrow> False
      | Some r \<Rightarrow>
          (case TIMESTAMP (preParse r) of
             None \<Rightarrow> False
           | Some (t, r') \<Rightarrow> \<not> pythonStyleComment r'))"

text \<open>
  \<^verbatim>\<open>scanString(line, maxMatches=1)\<close>: starting at location 0, skip whitespace, try the
  grammar there, and on failure go on from the next location; stop at the first match.
  The last location tried is the end of the text. \<open>bol\<close> is carried along for \<^verbatim>\<open>^\<close>.
\<close>

fun scanString :: "bool \<Rightarrow> string \<Rightarrow> bool" where
  "scanString bol [] = VERIFICATION_GRAMMAR bol []"
| "scanString bol (c # cs) =
     (if white c then scanString (c = CHR 0x0A) cs
      else VERIFICATION_GRAMMAR bol (c # cs) \<or> scanString False cs)"

text \<open>
  \<^verbatim>\<open>scanString\<close> first replaces tabs, as \<^verbatim>\<open>str.expandtabs()\<close> does: a tab becomes the spaces up
  to the next multiple of eight columns; a newline or carriage return starts column 0.
\<close>

fun expandtabs :: "nat \<Rightarrow> string \<Rightarrow> string" where
  "expandtabs col [] = []"
| "expandtabs col (c # cs) =
     (if c = CHR 0x09 then
        replicate (8 - col mod 8) CHR '' '' @ expandtabs (col + (8 - col mod 8)) cs
      else if c = CHR 0x0A \<or> c = CHR 0x0D then c # expandtabs 0 cs
      else c # expandtabs (col + 1) cs)"

text \<open>
  \<^verbatim>\<open>
  def VerifyStructure(self, unused_parser_mediator, line):
    match_generator = self._VERIFICATION_GRAMMAR.scanString(line, maxMatches=1)
    return bool(list(match_generator))
  \<close>
\<close>

definition VerifyStructure :: "string \<Rightarrow> bool" where
  "VerifyStructure line = scanString True (expandtabs 0 line)"

section \<open>Bash history: producing the event\<close>

text \<open>
  \<^verbatim>\<open>
  def ParseRecord(self, parser_mediator, key, structure):
    if key != u'log_entry':
      raise errors.ParseError(
          u'Unable to parse record, unknown structure: {0:s}'.format(key))
    event_data = BashHistoryEventData()
    event_data.command = structure.command
    date_time = dfdatetime_posix_time.PosixTime(timestamp=structure.timestamp)
    event = time_events.DateTimeValuesEvent(
        date_time, eventdata.EventTimestamp.MODIFICATION_TIME)
    parser_mediator.ProduceEventWithEventData(event, event_data)
  \<close>
  The result is the exception or normal completion, with the mediator after the call.
\<close>

definition ParseRecord ::
  "parser_mediator \<Rightarrow> string \<Rightarrow> ParseResults \<Rightarrow> (error + unit) \<times> parser_mediator" where
  "ParseRecord parser_mediator key structure' =
     (if key \<noteq> ''log_entry'' then
        (Inl (ParseError (''Unable to parse record, unknown structure: '' @ key)),
         parser_mediator)
      else
        (let event_data = BashHistory \<lparr>command = Some (r_command structure')\<rparr>;
             date_time = PosixTime (r_timestamp structure');
             event = DateTimeValuesEvent date_time MODIFICATION_TIME
         in (Inr (), ProduceEventWithEventData parser_mediator event event_data)))"

section \<open>Notions used to state the properties\<close>

text \<open>A hostname ends, or starts, with a dot.\<close>

definition trailing_dot :: "string \<Rightarrow> bool" where
  "trailing_dot h = (h \<noteq> [] \<and> last h = CHR ''.'')"

definition leading_dot :: "string \<Rightarrow> bool" where
  "leading_dot h = (h \<noteq> [] \<and> hd h = CHR ''.'')"

text \<open>The produced events of a timestamp role.\<close>

definition events_with_role :: "EventTimestamp \<Rightarrow> parser_mediator \<Rightarrow> parser_mediator" where
  "events_with_role role evs = filter (\<lambda>(e, d). timestamp_desc e = role) evs"

text \<open>
  The zero-sentinel rule for one row: the handler only appends to the mediator; among the
  appended events there is one of a role exactly when the column of that role is neither
  NULL nor zero; there are as many appended events as truthy timestamp columns; and all
  of them were produced with the same event data.
\<close>

definition zero_sentinel_rule ::
  "parser_mediator \<Rightarrow> parser_mediator \<Rightarrow> (int option \<times> EventTimestamp) list \<Rightarrow> bool" where
  "zero_sentinel_rule before after columns =
     (take (length before) after = before \<and>
      (let new = drop (length before) after
       in (\<forall>(t, role) \<in> set columns.
             (events_with_role role new \<noteq> []) = (t \<noteq> None \<and> t \<noteq> Some 0)) \<and>
          length new = length (filter truthy_int (map fst columns)) \<and>
          (\<forall>x \<in> set new. \<forall>y \<in> set new. snd x = snd y)))"

text \<open>
  A bookmark row added at 1000000 microseconds and never modified (\<^verbatim>\<open>lastModified = 0\<close>).
\<close>

definition scenario_B_row :: bookmark_row where
  "scenario_B_row =
     \<lparr> br_type = Some 1, br_bookmark_title = Some ''t'', br_dateAdded = Some 1000000,
       br_lastModified = Some 0, br_url = Some ''http://a/'', br_places_title = None,
       br_rev_host = Some ''a.'', br_visit_count = Some 1, br_id = Some 7 \<rparr>"

text \<open>The annotation list attached to a page visit event data object.\<close>

definition page_visited_extra :: "event_data \<Rightarrow> string list option" where
  "page_visited_extra d = (case d of PageVisited v \<Rightarrow> ve_extra v | _ \<Rightarrow> None)"

text \<open>How often the cache query has been executed on a database handle.\<close>

definition url_cache_queries :: "SQLiteDatabase \<Rightarrow> nat" where
  "url_cache_queries database = length (filter (\<lambda>q. q = URL_CACHE_QUERY) (executed database))"

text \<open>
  The state of the cache and of the handle during one scan of \<open>database0\<close>: the tables are
  untouched, and either the mapping is not built and no cache query has run, or a
  non-empty mapping is stored and the cache query has run once.
\<close>

definition cache_state_ok :: "SQLiteDatabase \<Rightarrow> SQLiteCache \<Rightarrow> SQLiteDatabase \<Rightarrow> bool" where
  "cache_state_ok database0 cache database =
     (moz_places database = moz_places database0 \<and>
      moz_historyvisits database = moz_historyvisits database0 \<and>
      ((GetResults cache ''url'' = None \<and>
        url_cache_queries database = url_cache_queries database0) \<or>
       ((\<exists>d. GetResults cache ''url'' = Some d \<and> d \<noteq> []) \<and>
        url_cache_queries database = url_cache_queries database0 + 1)))"

text \<open>
  A source with one place visited three times: a visit without referrer
  (\<^verbatim>\<open>from_visit = 0\<close>), a visit coming from the first one, and a visit whose referrer is in
  no row.
\<close>

definition example_database :: SQLiteDatabase where
  "example_database =
     \<lparr> moz_places =
         [\<lparr> p_id = 1, p_url = Some ''http://a/'', p_title = Some ''A'', p_visit_count = Some 3,
            p_rev_host = Some ''a.'', p_hidden = TEXT ''1'', p_typed = TEXT ''0'' \<rparr>],
       moz_historyvisits =
         [\<lparr> h_id = 10, h_place_id = Some 1, h_visit_date = Some 5, h_from_visit = Some 0,
            h_visit_type = Some 1 \<rparr>,
          \<lparr> h_id = 11, h_place_id = Some 1, h_visit_date = Some 6, h_from_visit = Some 10,
            h_visit_type = Some 1 \<rparr>,
          \<lparr> h_id = 12, h_place_id = Some 1, h_visit_date = Some 0, h_from_visit = Some 99,
            h_visit_type = Some 1 \<rparr>],
       executed = [] \<rparr>"

text \<open>
  A page visit row with \<^verbatim>\<open>hidden = '1'\<close>, \<^verbatim>\<open>typed = '0'\<close> and a referrer, and the same row
  with the referrer column 0.
\<close>

definition scenario_C_row :: page_visited_row where
  "scenario_C_row =
     \<lparr> vr_id = Some 11, vr_url = Some ''http://a/'', vr_title = Some ''A'',
       vr_visit_count = Some 3, vr_visit_date = Some 6, vr_from_visit = Some 10,
       vr_rev_host = Some ''a.'', vr_hidden = TEXT ''1'', vr_typed = TEXT ''0'',
       vr_visit_type = Some 1 \<rparr>"

definition scenario_C_row_zero :: page_visited_row where
  "scenario_C_row_zero = scenario_C_row\<lparr>vr_from_visit := Some 0\<rparr>"

text \<open>The digits at the start of a text are a run of nine or ten.\<close>

definition digits_9_10 :: "string \<Rightarrow> bool" where
  "digits_9_10 s = (9 \<le> length (takeWhile nums s) \<and> length (takeWhile nums s) \<le> 10)"

text \<open>The marker immediately followed by a run of nine or ten digits starts the text.\<close>

definition strict_anchor_here :: "string \<Rightarrow> bool" where
  "strict_anchor_here s = (case s of [] \<Rightarrow> False | c # r \<Rightarrow> c = CHR ''#'' \<and> digits_9_10 r)"

text \<open>
  The anchor as \<^verbatim>\<open>_TIMESTAMP\<close> reads it starts the text: the marker, whitespace or none, then
  a run of nine or ten digits.
\<close>

definition anchor_here :: "string \<Rightarrow> bool" where
  "anchor_here s =
     (case s of [] \<Rightarrow> False | c # r \<Rightarrow> c = CHR ''#'' \<and> digits_9_10 (dropWhile white r))"

text \<open>
  Such an anchor starts the text and no comment follows it: after the digits and
  whitespace, the next character is not \<^verbatim>\<open>#\<close>.
\<close>

definition uncommented_anchor_here :: "string \<Rightarrow> bool" where
  "uncommented_anchor_here s =
     (case s of
        [] \<Rightarrow> False
      | c # r \<Rightarrow>
          c = CHR ''#'' \<and> digits_9_10 (dropWhile white r) \<and>
          \<not> pythonStyleComment (dropWhile nums (dropWhile white r)))"

text \<open>A property holds of the text from some location on.\<close>

fun anywhere :: "(string \<Rightarrow> bool) \<Rightarrow> string \<Rightarrow> bool" where
  "anywhere P [] = P []"
| "anywhere P (c # cs) = (P (c # cs) \<or> anywhere P cs)"


section \<open>Hostname reversal\<close>

lemma ReverseHostname_twice:
  assumes "\<not> trailing_dot h" and "\<not> leading_dot h"
  shows "ReverseHostname (Some (ReverseHostname (Some h))) = h"
proof (cases "length h > 1")
  case True
  then have ne: "h \<noteq> []" by auto
  with assms have l: "last h \<noteq> CHR ''.''" and f: "hd h \<noteq> CHR ''.''"
    by (auto simp: trailing_dot_def leading_dot_def)
  from True l have r: "ReverseHostname (Some h) = rev h"
    by (simp add: ReverseHostname_def ne)
  from ne f have "last (rev h) \<noteq> CHR ''.''" by (simp add: last_rev)
  with True ne show ?thesis unfolding r by (simp add: ReverseHostname_def)
next
  case False
  then have "h = [] \<or> (\<exists>c. h = [c])" by (cases h) auto
  then show ?thesis by (auto simp: ReverseHostname_def)
qed

text \<open>
  Claim C4, as stated, fails: \<^verbatim>\<open>.ab\<close> has no trailing dot, its reversal \<^verbatim>\<open>ba.\<close> has one, and
  reversing that drops the dot, giving \<^verbatim>\<open>ab\<close>.
\<close>

theorem C4_counterexample:
  "\<not> trailing_dot ''.ab'' \<and> ReverseHostname (Some (ReverseHostname (Some ''.ab''))) \<noteq> ''.ab''"
  by (simp add: trailing_dot_def ReverseHostname_def)

text \<open>
  Claim C4, amended: for every hostname \<open>h\<close> with neither a trailing nor a leading dot,
  reversing twice gives \<open>h\<close> back; the stored form \<^verbatim>\<open>moc.elgoog.www.\<close> reverses to
  \<^verbatim>\<open>www.google.com\<close>, its trailing dot dropped; the empty string and \<^verbatim>\<open>None\<close> give the empty
  string; a single character is returned as it is.
\<close>

theorem C4_ReverseHostname:
  "(\<not> trailing_dot h \<and> \<not> leading_dot h \<longrightarrow>
      ReverseHostname (Some (ReverseHostname (Some h))) = h) \<and>
   ReverseHostname (Some ''moc.elgoog.www.'') = ''www.google.com'' \<and>
   ReverseHostname (Some []) = [] \<and> ReverseHostname None = [] \<and>
   ReverseHostname (Some [c]) = [c]"
  using ReverseHostname_twice [of h] by (simp add: ReverseHostname_def)

theorem C4_ReverseHostname_witness:
  "\<not> trailing_dot ''www.google.com'' \<and> \<not> leading_dot ''www.google.com'' \<and>
   ReverseHostname (Some (ReverseHostname (Some ''www.google.com''))) = ''www.google.com''"
  using C4_ReverseHostname [of "''www.google.com''" "CHR ''x''"]
  by (simp add: trailing_dot_def leading_dot_def)

section \<open>The zero-sentinel rule of the row handlers\<close>

lemma produce_if_set_once:
  "produce_if_set m t1 r1 d =
     m @ (if t1 \<noteq> None \<and> t1 \<noteq> Some 0
          then [(DateTimeValuesEvent (PosixTimeInMicroseconds (the t1)) r1, d)] else [])"
  by (auto simp: produce_if_set_def ProduceEventWithEventData_def split: option.splits)

lemma zero_sentinel_two:
  "r1 \<noteq> r2 \<Longrightarrow>
   zero_sentinel_rule m (produce_if_set (produce_if_set m t1 r1 d) t2 r2 d) [(t1, r1), (t2, r2)]"
  unfolding produce_if_set_once
  by (auto simp: zero_sentinel_rule_def events_with_role_def truthy_int_def Let_def
      split: option.splits)

lemma zero_sentinel_one:
  "zero_sentinel_rule m (produce_if_set m t1 r1 d) [(t1, r1)]"
  unfolding produce_if_set_once
  by (auto simp: zero_sentinel_rule_def events_with_role_def truthy_int_def Let_def
      split: option.splits)

text \<open>With the cache of the spec, the lookup and the page visit handler never raise.\<close>

lemma GetUrl_returns: "\<exists>u c d. GetUrl k cache database = (Inr u, c, d)"
  by (auto simp: GetUrl_def GetResults_def CacheQueryResults_def Query_URL_CACHE_QUERY_def
      not_results_def dict_get_def Let_def split: option.splits prod.splits)

lemma visited_from_returns: "\<exists>x c d. visited_from row cache database = (Inr x, c, d)"
proof (cases "vr_from_visit row")
  case None
  then show ?thesis by (simp add: visited_from_def)
next
  case (Some k)
  obtain u c d where "GetUrl k cache database = (Inr u, c, d)"
    using GetUrl_returns by blast
  with Some show ?thesis by (simp add: visited_from_def)
qed

text \<open>
  Claim C1: every row handler of the Firefox history and downloads plugins obeys the
  zero-sentinel rule on its timestamp columns: an event of a role is produced exactly
  when the raw column of that role (\<^verbatim>\<open>dateAdded\<close>, \<^verbatim>\<open>lastModified\<close>, \<^verbatim>\<open>visit_date\<close>,
  \<^verbatim>\<open>startTime\<close>, \<^verbatim>\<open>endTime\<close>) is neither zero nor NULL; the number of events produced for
  the row is the number of truthy timestamp columns; and all events of one row carry the
  same event data. The page visit handler also returns normally.
\<close>

theorem C1_zero_sentinel_rule:
  "zero_sentinel_rule m (ParseBookmarkRow m br q)
     [(br_dateAdded br, ADDED_TIME), (br_lastModified br, MODIFICATION_TIME)] \<and>
   zero_sentinel_rule m (ParseBookmarkAnnotationRow m ar q)
     [(ar_dateAdded ar, ADDED_TIME), (ar_lastModified ar, MODIFICATION_TIME)] \<and>
   zero_sentinel_rule m (ParseBookmarkFolderRow m fr q)
     [(fr_dateAdded fr, ADDED_TIME), (fr_lastModified fr, MODIFICATION_TIME)] \<and>
   zero_sentinel_rule m (ParseDownloadsRow m dr q)
     [(dr_startTime dr, START_TIME), (dr_endTime dr, END_TIME)] \<and>
   (case ParsePageVisitedRow m vr cache database q of
      (r, m', st) \<Rightarrow> r = Inr () \<and> zero_sentinel_rule m m' [(vr_visit_date vr, PAGE_VISITED)])"
proof -
  have 1: "zero_sentinel_rule m (ParseBookmarkRow m br q)
     [(br_dateAdded br, ADDED_TIME), (br_lastModified br, MODIFICATION_TIME)]"
    by (simp add: ParseBookmarkRow_def Let_def zero_sentinel_two)
  have 2: "zero_sentinel_rule m (ParseBookmarkAnnotationRow m ar q)
     [(ar_dateAdded ar, ADDED_TIME), (ar_lastModified ar, MODIFICATION_TIME)]"
    by (simp add: ParseBookmarkAnnotationRow_def Let_def zero_sentinel_two)
  have 3: "zero_sentinel_rule m (ParseBookmarkFolderRow m fr q)
     [(fr_dateAdded fr, ADDED_TIME), (fr_lastModified fr, MODIFICATION_TIME)]"
    by (simp add: ParseBookmarkFolderRow_def Let_def zero_sentinel_two)
  have 4: "zero_sentinel_rule m (ParseDownloadsRow m dr q)
     [(dr_startTime dr, START_TIME), (dr_endTime dr, END_TIME)]"
    by (simp add: ParseDownloadsRow_def Let_def zero_sentinel_two)
  obtain x c d where "visited_from vr cache database = (Inr x, c, d)"
    using visited_from_returns by blast
  then have 5: "case ParsePageVisitedRow m vr cache database q of
      (r, m', st) \<Rightarrow> r = Inr () \<and> zero_sentinel_rule m m' [(vr_visit_date vr, PAGE_VISITED)]"
    by (simp add: ParsePageVisitedRow_def Let_def zero_sentinel_one)
  from 1 2 3 4 5 show ?thesis by blast
qed

theorem C1_zero_sentinel_rule_witness:
  "length (ParseBookmarkRow [] scenario_B_row None) = 1 \<and>
   events_with_role MODIFICATION_TIME (ParseBookmarkRow [] scenario_B_row None) = []"
  using C1_zero_sentinel_rule [of "[]" scenario_B_row None]
  by (simp add: zero_sentinel_rule_def scenario_B_row_def truthy_int_def Let_def)

section \<open>The auxiliary lookup and the page visit handler\<close>

lemma GetUrl_miss:
  assumes "GetUrl url_id cache database = (r, cache', database')"
    and "GetResults cache' ''url'' = Some d" and "map_of d url_id = None"
  shows "r = Inr []"
  using assms
  by (auto simp: GetUrl_def GetResults_def CacheQueryResults_def Query_URL_CACHE_QUERY_def
      dict_get_def Let_def split: if_splits option.splits prod.splits)

lemma GetUrl_built:
  assumes "GetResults cache ''url'' = Some d" and "d \<noteq> []"
  shows "snd (GetUrl url_id cache database) = (cache, database)"
  using assms
  by (auto simp: GetUrl_def not_results_def dict_get_def Let_def split: option.splits prod.splits)

lemma GetUrl_builds:
  assumes "not_results (GetResults cache ''url'')"
  shows "snd (GetUrl url_id cache database) =
     (CacheQueryResults cache (fst (Query_URL_CACHE_QUERY database)) ''url'' cr_id (cr_url, cr_rev_host),
      snd (Query_URL_CACHE_QUERY database))"
  using assms
  by (auto simp: GetUrl_def GetResults_def CacheQueryResults_def Query_URL_CACHE_QUERY_def
      dict_get_def Let_def split: option.splits prod.splits)

lemma hidden_and_typed_nonempty: "hidden_and_typed row extras \<noteq> []"
  by (simp add: hidden_and_typed_def Let_def)

lemma extra_of_event_data:
  "extras \<noteq> [] \<Longrightarrow> page_visited_extra (ParsePageVisitedRow_event_data row q extras) = Some extras"
  by (simp add: page_visited_extra_def ParsePageVisitedRow_event_data_def Let_def)

lemma ParsePageVisitedRow_unfold:
  "visited_from row cache database = (Inr x, c, d) \<Longrightarrow>
   ParsePageVisitedRow m row cache database q =
     (Inr (), produce_if_set m (vr_visit_date row) PAGE_VISITED
        (ParsePageVisitedRow_event_data row q (hidden_and_typed row x)), c, d)"
  by (simp add: ParsePageVisitedRow_def Let_def)

text \<open>Evaluating the handlers on the example source.\<close>

lemmas eval_defs = GetUrl_def GetResults_def CacheQueryResults_def Query_URL_CACHE_QUERY_def
  Query_PAGE_VISITED_QUERY_def places_join_historyvisits_def url_cache_row_of_def
  page_visited_row_of_def not_results_def dict_get_def visited_from_def hidden_and_typed_def
  ParsePageVisitedRow_event_data_def ParsePageVisitedRow_def produce_if_set_def
  ProduceEventWithEventData_def ReverseHostname_def example_database_def Let_def
  page_visited_extra_def scenario_C_row_def scenario_C_row_zero_def


text \<open>
  Claim C10: for every page visit row the annotation list is not empty, since the typed
  check appends a marker in both branches; the handler returns normally, and every event
  data object it produces has its extra attribute set to a non-empty list, never left as
  \<^verbatim>\<open>None\<close>.
\<close>

theorem C10_extra_never_empty:
  "hidden_and_typed row extras \<noteq> [] \<and>
   (case ParsePageVisitedRow m row cache database q of
      (r, m', st) \<Rightarrow>
        r = Inr () \<and> take (length m) m' = m \<and>
        (\<forall>(e, d) \<in> set (drop (length m) m').
           \<exists>xs. page_visited_extra d = Some xs \<and> xs \<noteq> []))"
proof -
  obtain x c d where v: "visited_from row cache database = (Inr x, c, d)"
    using visited_from_returns by blast
  show ?thesis
    unfolding ParsePageVisitedRow_unfold [OF v] produce_if_set_once
    by (simp add: hidden_and_typed_nonempty extra_of_event_data)
qed


theorem C10_extra_never_empty_witness:
  "map (\<lambda>(e, d). page_visited_extra d)
     (fst (snd (ParsePageVisitedRow [] (scenario_C_row\<lparr>vr_from_visit := None, vr_hidden := INTEGER 0\<rparr>)
        (\<lambda>name. None) example_database None))) =
     [Some [''(URL not typed directly)'']]"
  using C10_extra_never_empty [where row = "scenario_C_row\<lparr>vr_from_visit := None, vr_hidden := INTEGER 0\<rparr>"
      and extras = "[]" and m = "[]" and cache = "\<lambda>name. None" and database = example_database
      and q = None]
  by (simp add: eval_defs)

text \<open>
  Claim C8: when the identifier has no entry in the built mapping, the lookup returns the
  empty string and raises nothing; the handler of a row with that referrer goes on as
  usual: the annotation list starts with the bare \<^verbatim>\<open>visited from: \<close> text, the hidden and
  typed markers follow, and the event of the row is produced under the zero-sentinel rule.
\<close>

theorem C8_lookup_miss:
  assumes "GetUrl url_id cache database = (r, cache', database')"
    and "GetResults cache' ''url'' = Some d" and "map_of d url_id = None"
  shows "r = Inr [] \<and>
         (vr_from_visit row = Some url_id \<and> url_id \<noteq> 0 \<longrightarrow>
          ParsePageVisitedRow m row cache database q =
            (Inr (),
             produce_if_set m (vr_visit_date row) PAGE_VISITED
               (ParsePageVisitedRow_event_data row q (hidden_and_typed row [''visited from: ''])),
             cache', database'))"
proof -
  from GetUrl_miss [OF assms] have r: "r = Inr []" .
  have "vr_from_visit row = Some url_id \<and> url_id \<noteq> 0 \<longrightarrow>
          ParsePageVisitedRow m row cache database q =
            (Inr (),
             produce_if_set m (vr_visit_date row) PAGE_VISITED
               (ParsePageVisitedRow_event_data row q (hidden_and_typed row [''visited from: ''])),
             cache', database')"
  proof
    assume a: "vr_from_visit row = Some url_id \<and> url_id \<noteq> 0"
    with assms(1) r have "visited_from row cache database =
        (Inr [''visited from: ''], cache', database')"
      by (simp add: visited_from_def)
    from ParsePageVisitedRow_unfold [OF this] show "ParsePageVisitedRow m row cache database q =
            (Inr (),
             produce_if_set m (vr_visit_date row) PAGE_VISITED
               (ParsePageVisitedRow_event_data row q (hidden_and_typed row [''visited from: ''])),
             cache', database')" .
  qed
  with r show ?thesis by blast
qed

theorem C8_lookup_miss_witness:
  "GetUrl 99 (\<lambda>name. None) example_database =
     (Inr [],
      (\<lambda>name. None)(''url'' \<mapsto>
         [(12, Some ''http://a/'', Some ''a.''), (11, Some ''http://a/'', Some ''a.''),
          (10, Some ''http://a/'', Some ''a.'')]),
      example_database\<lparr>executed := [URL_CACHE_QUERY]\<rparr>) \<and>
   map_of [(12, Some ''http://a/'', Some ''a.''), (11, Some ''http://a/'', Some ''a.''),
          (10::int, Some ''http://a/'', Some ''a.'')] 99 = None"
proof -
  have g: "GetUrl 99 (\<lambda>name. None) example_database =
     (Inr [],
      (\<lambda>name. None)(''url'' \<mapsto>
         [(12, Some ''http://a/'', Some ''a.''), (11, Some ''http://a/'', Some ''a.''),
          (10, Some ''http://a/'', Some ''a.'')]),
      example_database\<lparr>executed := [URL_CACHE_QUERY]\<rparr>)"
    by (simp add: eval_defs)
  have c: "GetResults ((\<lambda>name. None)(''url'' \<mapsto>
         [(12, Some ''http://a/'', Some ''a.''), (11, Some ''http://a/'', Some ''a.''),
          (10, Some ''http://a/'', Some ''a.'')])) ''url'' = Some [(12, Some ''http://a/'', Some ''a.''), (11, Some ''http://a/'', Some ''a.''),
          (10, Some ''http://a/'', Some ''a.'')]"
    by (simp add: GetResults_def)
  have m: "map_of [(12, Some ''http://a/'', Some ''a.''), (11, Some ''http://a/'', Some ''a.''),
          (10::int, Some ''http://a/'', Some ''a.'')] 99 = None" by simp
  from C8_lookup_miss [OF g c m] g m show ?thesis by simp
qed

text \<open>
  Claim C9, as stated, fails: a referrer column of 0 is not NULL, yet the handler treats
  it as absent, and the annotation list holds the hidden marker and the not-typed marker
  only.
\<close>

theorem C9_counterexample:
  "vr_from_visit scenario_C_row_zero \<noteq> None \<and>
   vr_hidden scenario_C_row_zero = TEXT ''1'' \<and> vr_typed scenario_C_row_zero = TEXT ''0'' \<and>
   map (\<lambda>(e, d). page_visited_extra d)
     (fst (snd (ParsePageVisitedRow [] scenario_C_row_zero (\<lambda>name. None) example_database None))) =
     [Some [''(url hidden)'', ''(URL not typed directly)'']]"
  by (simp add: eval_defs)

text \<open>
  Claim C9, amended: for every page visit row with \<^verbatim>\<open>hidden\<close> equal to \<^verbatim>\<open>'1'\<close>, \<^verbatim>\<open>typed\<close> equal
  to \<^verbatim>\<open>'0'\<close> and a referrer column that is neither NULL nor 0, the handler attaches to the
  event data the list of, in this order, the resolved visited-from text, the hidden
  marker and the not-typed marker.
\<close>

theorem C9_annotation_order:
  assumes "vr_hidden row = TEXT ''1''" and "vr_typed row = TEXT ''0''"
    and "vr_from_visit row = Some k" and "k \<noteq> 0"
  shows "\<exists>u c d. GetUrl k cache database = (Inr u, c, d) \<and>
           ParsePageVisitedRow m row cache database q =
             (Inr (),
              produce_if_set m (vr_visit_date row) PAGE_VISITED
                (ParsePageVisitedRow_event_data row q
                   [''visited from: '' @ u, ''(url hidden)'', ''(URL not typed directly)'']),
              c, d) \<and>
           page_visited_extra (ParsePageVisitedRow_event_data row q
                   [''visited from: '' @ u, ''(url hidden)'', ''(URL not typed directly)'']) =
             Some [''visited from: '' @ u, ''(url hidden)'', ''(URL not typed directly)'']"
proof -
  obtain u c d where g: "GetUrl k cache database = (Inr u, c, d)"
    using GetUrl_returns by blast
  with assms have "visited_from row cache database = (Inr [''visited from: '' @ u], c, d)"
    by (simp add: visited_from_def)
  from ParsePageVisitedRow_unfold [OF this, of m q] assms(1,2) g show ?thesis
    by (simp add: hidden_and_typed_def extra_of_event_data)
qed


theorem C9_annotation_order_witness:
  "map (\<lambda>(e, d). page_visited_extra d)
     (fst (snd (ParsePageVisitedRow [] scenario_C_row (\<lambda>name. None) example_database None))) =
     [Some [''visited from: http://a/ (a)'', ''(url hidden)'', ''(URL not typed directly)'']]"
  using C9_annotation_order [where row = scenario_C_row and k = 10 and cache = "\<lambda>name. None"
      and database = example_database and m = "[]" and q = None]
  by (simp add: eval_defs)

section \<open>The URL cache is built once\<close>

lemma fold_cons: "fold (\<lambda>row d. f row # d) rows acc = rev (map f rows) @ acc"
  by (induction rows arbitrary: acc) auto

lemma queries_differ: "PAGE_VISITED_QUERY \<noteq> URL_CACHE_QUERY"
  by (simp add: PAGE_VISITED_QUERY_def URL_CACHE_QUERY_def)

lemma join_tables:
  "moz_places database = moz_places database0 \<Longrightarrow>
   moz_historyvisits database = moz_historyvisits database0 \<Longrightarrow>
   places_join_historyvisits database = places_join_historyvisits database0"
  by (simp add: places_join_historyvisits_def)

lemma GetUrl_keeps_ok:
  assumes j: "places_join_historyvisits database0 \<noteq> []"
    and ok: "cache_state_ok database0 cache database"
    and g: "GetUrl k cache database = (r, cache', database')"
  shows "cache_state_ok database0 cache' database'"
proof (cases "GetResults cache ''url''")
  case None
  then have n: "not_results (GetResults cache ''url'')" by (simp add: not_results_def)
  from ok have t: "moz_places database = moz_places database0"
    "moz_historyvisits database = moz_historyvisits database0"
    by (simp_all add: cache_state_ok_def)
  from ok None have q: "url_cache_queries database = url_cache_queries database0"
    by (auto simp: cache_state_ok_def)
  from j have j': "places_join_historyvisits database \<noteq> []"
    by (simp only: join_tables [OF t] not_False_eq_True)
  have s: "snd (GetUrl k cache database) = (cache', database')" by (simp only: g snd_conv)
  have "(cache', database') =
      (CacheQueryResults cache (fst (Query_URL_CACHE_QUERY database)) ''url''
         cr_id (cr_url, cr_rev_host), snd (Query_URL_CACHE_QUERY database))"
    using GetUrl_builds [OF n, of k database] by (simp only: s)
  then have c: "cache' = CacheQueryResults cache (fst (Query_URL_CACHE_QUERY database)) ''url''
                      cr_id (cr_url, cr_rev_host)"
    and d: "database' = snd (Query_URL_CACHE_QUERY database)" by (simp_all only: prod.inject)
  from j' have "\<exists>d. GetResults cache' ''url'' = Some d \<and> d \<noteq> []"
    unfolding c by (simp add: GetResults_def CacheQueryResults_def Query_URL_CACHE_QUERY_def
        fold_cons)
  moreover have "url_cache_queries database' = url_cache_queries database0 + 1"
    unfolding d using q by (simp add: Query_URL_CACHE_QUERY_def url_cache_queries_def)
  moreover have "moz_places database' = moz_places database0"
    "moz_historyvisits database' = moz_historyvisits database0"
    unfolding d using t by (simp_all add: Query_URL_CACHE_QUERY_def)
  ultimately show ?thesis by (simp add: cache_state_ok_def)
next
  case (Some d)
  with ok have "d \<noteq> []" by (auto simp: cache_state_ok_def)
  have s: "snd (GetUrl k cache database) = (cache', database')" by (simp only: g snd_conv)
  from GetUrl_built [OF Some \<open>d \<noteq> []\<close>, of k database]
  have "cache' = cache" "database' = database" by (simp_all only: s prod.inject)
  with ok show ?thesis by simp
qed

lemma visited_from_keeps_ok:
  assumes j: "places_join_historyvisits database0 \<noteq> []"
    and ok: "cache_state_ok database0 cache database"
    and g: "visited_from row cache database = (r, cache', database')"
  shows "cache_state_ok database0 cache' database'"
proof (cases "\<exists>k. vr_from_visit row = Some k \<and> k \<noteq> 0")
  case True
  then obtain k where k: "vr_from_visit row = Some k" "k \<noteq> 0" by blast
  obtain u c d where u: "GetUrl k cache database = (u, c, d)" by (cases "GetUrl k cache database")
  from GetUrl_keeps_ok [OF j ok u] have "cache_state_ok database0 c d" .
  moreover from g k u have "cache' = c \<and> database' = d"
    by (auto simp: visited_from_def split: sum.splits)
  ultimately show ?thesis by simp
next
  case False
  with g have "cache' = cache \<and> database' = database"
    by (auto simp: visited_from_def split: option.splits if_splits)
  with ok show ?thesis by simp
qed

lemma ParsePageVisitedRow_keeps_ok:
  assumes j: "places_join_historyvisits database0 \<noteq> []"
    and ok: "cache_state_ok database0 cache database"
    and g: "ParsePageVisitedRow m row cache database q = (r, m', cache', database')"
  shows "cache_state_ok database0 cache' database'"
proof -
  obtain x c d where v: "visited_from row cache database = (Inr x, c, d)"
    using visited_from_returns by blast
  from visited_from_keeps_ok [OF j ok v] have "cache_state_ok database0 c d" .
  moreover from g have "cache' = c \<and> database' = d"
    unfolding ParsePageVisitedRow_unfold [OF v] by simp
  ultimately show ?thesis by simp
qed

lemma ParseRows_keeps_ok:
  assumes j: "places_join_historyvisits database0 \<noteq> []"
  shows "cache_state_ok database0 cache database \<Longrightarrow>
         ParseRows rows (m, cache, database) = (r, m', cache', database') \<Longrightarrow>
         cache_state_ok database0 cache' database'"
proof (induction rows arbitrary: m cache database)
  case Nil
  then show ?case by simp
next
  case (Cons row rows)
  obtain r1 m1 c1 d1 where
    p: "ParsePageVisitedRow m row cache database (Some PAGE_VISITED_QUERY) = (r1, m1, c1, d1)"
    by (cases "ParsePageVisitedRow m row cache database (Some PAGE_VISITED_QUERY)") auto
  from ParsePageVisitedRow_keeps_ok [OF j Cons.prems(1) p]
  have ok1: "cache_state_ok database0 c1 d1" .
  show ?case
  proof (cases r1)
    case (Inl e)
    with Cons.prems(2) p have "cache' = c1 \<and> database' = d1" by simp
    with ok1 show ?thesis by simp
  next
    case (Inr u)
    with Cons.prems(2) p have "ParseRows rows (m1, c1, d1) = (r, m', cache', database')"
      by simp
    from Cons.IH [OF ok1 this] show ?thesis .
  qed
qed


lemma fresh_ok:
  "cache_state_ok (snd (Query_PAGE_VISITED_QUERY database)) (\<lambda>name. None)
     (snd (Query_PAGE_VISITED_QUERY database))"
  by (simp add: cache_state_ok_def GetResults_def)

lemma page_query_count:
  "url_cache_queries (snd (Query_PAGE_VISITED_QUERY database)) = url_cache_queries database"
  by (simp add: Query_PAGE_VISITED_QUERY_def url_cache_queries_def queries_differ)

lemma page_query_join:
  "places_join_historyvisits (snd (Query_PAGE_VISITED_QUERY database)) =
   places_join_historyvisits database"
  by (simp add: Query_PAGE_VISITED_QUERY_def places_join_historyvisits_def)

lemma page_query_rows:
  "fst (Query_PAGE_VISITED_QUERY database) \<noteq> [] \<Longrightarrow>
   places_join_historyvisits (snd (Query_PAGE_VISITED_QUERY database)) \<noteq> []"
  unfolding page_query_join by (auto simp: Query_PAGE_VISITED_QUERY_def)

lemma Process_count:
  "Process_page_visited m database = (r, m', cache', database') \<Longrightarrow>
   url_cache_queries database' \<le> url_cache_queries database + 1"
proof -
  assume p: "Process_page_visited m database = (r, m', cache', database')"
  let ?rows = "fst (Query_PAGE_VISITED_QUERY database)"
  let ?db = "snd (Query_PAGE_VISITED_QUERY database)"
  from p have pr: "ParseRows ?rows (m, (\<lambda>name. None), ?db) = (r, m', cache', database')"
    by (simp add: Process_page_visited_def split_def Let_def)
  show ?thesis
  proof (cases "?rows = []")
    case True
    with pr have "database' = ?db" by simp
    then show ?thesis by (simp only: page_query_count)
  next
    case False
    from ParseRows_keeps_ok [OF page_query_rows [OF False] fresh_ok pr]
    have "cache_state_ok ?db cache' database'" .
    then have "url_cache_queries database' \<le> url_cache_queries ?db + 1"
      by (auto simp: cache_state_ok_def)
    then show ?thesis by (simp only: page_query_count)
  qed
qed

lemma pure_read_after_construction:
  assumes rows: "fst (Query_PAGE_VISITED_QUERY database) = rows1 @ row # rows2"
    and pr: "ParseRows rows1 (m, (\<lambda>name. None), snd (Query_PAGE_VISITED_QUERY database)) =
               (r1, m1, cache1, database1)"
    and built: "GetResults cache1 ''url'' \<noteq> None"
  shows "snd (GetUrl url_id cache1 database1) = (cache1, database1)"
proof -
  from rows have "fst (Query_PAGE_VISITED_QUERY database) \<noteq> []" by simp
  from ParseRows_keeps_ok [OF page_query_rows [OF this] fresh_ok pr]
  have "cache_state_ok (snd (Query_PAGE_VISITED_QUERY database)) cache1 database1" .
  with built obtain d where "GetResults cache1 ''url'' = Some d" "d \<noteq> []"
    by (auto simp: cache_state_ok_def)
  then show ?thesis by (rule GetUrl_built)
qed

text \<open>
  Claim C7: in one invocation on one source, whatever the number of rows that call the
  lookup, the cache query is executed at most once; and once the mapping is stored, every
  later lookup leaves the cache and the database handle as they are: it reads the stored
  mapping and executes no query.
\<close>

theorem C7_url_cache_built_once:
  "(case Process_page_visited m database of
      (r, m', cache', database') \<Rightarrow>
        url_cache_queries database' \<le> url_cache_queries database + 1) \<and>
   (\<forall>rows1 row rows2 r1 m1 cache1 database1 url_id.
      fst (Query_PAGE_VISITED_QUERY database) = rows1 @ row # rows2 \<and>
      ParseRows rows1 (m, (\<lambda>name. None), snd (Query_PAGE_VISITED_QUERY database)) =
        (r1, m1, cache1, database1) \<and>
      GetResults cache1 ''url'' \<noteq> None \<longrightarrow>
      snd (GetUrl url_id cache1 database1) = (cache1, database1))"
proof -
  obtain r m' cache' database' where
    p: "Process_page_visited m database = (r, m', cache', database')"
    by (cases "Process_page_visited m database") auto
  from Process_count [OF p] p
  have "case Process_page_visited m database of
      (r, m', cache', database') \<Rightarrow>
        url_cache_queries database' \<le> url_cache_queries database + 1" by simp
  moreover have "\<forall>rows1 row rows2 r1 m1 cache1 database1 url_id.
      fst (Query_PAGE_VISITED_QUERY database) = rows1 @ row # rows2 \<and>
      ParseRows rows1 (m, (\<lambda>name. None), snd (Query_PAGE_VISITED_QUERY database)) =
        (r1, m1, cache1, database1) \<and>
      GetResults cache1 ''url'' \<noteq> None \<longrightarrow>
      snd (GetUrl url_id cache1 database1) = (cache1, database1)"
    using pure_read_after_construction by blast
  ultimately show ?thesis by blast
qed

theorem C7_url_cache_built_once_witness:
  "executed (snd (snd (snd (Process_page_visited [] example_database)))) =
     [PAGE_VISITED_QUERY, URL_CACHE_QUERY]"
  using C7_url_cache_built_once [where m = "[]" and database = example_database]
  by (simp add: Process_page_visited_def eval_defs)

section \<open>Bash history: records and their events\<close>

lemma takeWhile_take: "takeWhile P (take n u) = take n (takeWhile P u)"
  by (induction u arbitrary: n) (auto simp: take_Cons split: nat.splits)

lemma Word_nums_9_10_Some:
  assumes "Word_nums_9_10 u = Some (token, rest)"
  shows "token = takeWhile nums u \<and> rest = dropWhile nums u \<and> digits_9_10 u"
proof -
  let ?t = "takeWhile nums (take 10 u)"
  let ?r = "drop (length ?t) u"
  from assms have tok: "token = ?t" and rest: "rest = ?r"
    and len: "9 \<le> length ?t" and stop: "?r = [] \<or> \<not> nums (hd ?r)"
    by (auto simp: Word_nums_9_10_def Let_def split: if_splits)
  have t10: "?t = take 10 (takeWhile nums u)" by (rule takeWhile_take)
  have le: "length (takeWhile nums u) \<le> 10"
  proof (rule ccontr)
    assume "\<not> length (takeWhile nums u) \<le> 10"
    then have g: "10 < length (takeWhile nums u)" by simp
    then have l10: "length ?t = 10" unfolding t10 by simp
    have "length (takeWhile nums u) \<le> length u" by (rule length_takeWhile_le)
    with g have lu: "10 < length u" by simp
    then have ne: "drop 10 u \<noteq> []" by simp
    have "hd (drop 10 u) = u ! 10" using lu by (simp add: hd_drop_conv_nth)
    also have "\<dots> = takeWhile nums u ! 10" using g by (simp add: takeWhile_nth)
    finally have "hd (drop 10 u) \<in> set (takeWhile nums u)" using g by simp
    then have "nums (hd (drop 10 u))" by (rule set_takeWhileD [THEN conjunct2])
    with stop ne show False unfolding l10 by simp
  qed
  then have eq: "?t = takeWhile nums u" unfolding t10 by simp
  have "?r = dropWhile nums u" unfolding eq by (simp add: dropWhile_eq_drop)
  with tok rest eq len le show ?thesis by (simp add: digits_9_10_def)
qed

lemma TIMESTAMP_Some:
  assumes "TIMESTAMP s = Some (t, r')"
  shows "anchor_here s \<and> r' = dropWhile nums (dropWhile white (tl s)) \<and>
         t = PyParseIntCast (takeWhile nums (dropWhile white (tl s)))"
proof -
  from assms obtain r where s: "s = CHR ''#'' # r"
    by (cases s) (auto simp: TIMESTAMP_def split: if_splits)
  from assms s obtain token rest where
    w: "Word_nums_9_10 (preParse r) = Some (token, rest)" and t: "t = PyParseIntCast token"
    and r': "r' = rest"
    by (auto simp: TIMESTAMP_def split: option.splits)
  from Word_nums_9_10_Some [OF w] s t r' show ?thesis
    by (simp add: anchor_here_def preParse_def)
qed







text \<open>
  Claim C2 does not hold of the code: \<^verbatim>\<open>_TIMESTAMP\<close> accepts \<^verbatim>\<open>#123456789\<close> as an anchor, but
  the lookahead of \<^verbatim>\<open>_COMMAND\<close> asks for ten digits, so the payload of a record followed by
  that nine-digit anchor runs through it to the end of the text, while a ten-digit
  anchor ends the payload.
\<close>

theorem C2_nine_digit_anchor_swallowed:
  "TIMESTAMP ''#123456789\<newline>whoami'' = Some (123456789, ''\<newline>whoami'') \<and>
   LINE_GRAMMAR ''#1609459200\<newline>ls\<newline>#123456789\<newline>whoami'' =
     Some (\<lparr>r_timestamp = 1609459200, r_command = ''ls\<newline>#123456789\<newline>whoami''\<rparr>, []) \<and>
   LINE_GRAMMAR ''#1609459200\<newline>ls\<newline>#1234567890\<newline>whoami'' =
     Some (\<lparr>r_timestamp = 1609459200, r_command = ''ls''\<rparr>, ''#1234567890\<newline>whoami'')"
  by code_simp

text \<open>
  Claim C5: \<^verbatim>\<open>ParseRecord\<close> raises \<^verbatim>\<open>ParseError\<close> exactly when the key is not \<^verbatim>\<open>log_entry\<close>;
  it raises nothing else; and when it raises, the mediator is as it was before the call:
  no event has been produced.
\<close>

theorem C5_ParseRecord_error:
  "((\<exists>msg. fst (ParseRecord m key s) = Inl (ParseError msg)) \<longleftrightarrow> key \<noteq> ''log_entry'') \<and>
   (\<forall>e. fst (ParseRecord m key s) = Inl e \<longrightarrow>
        key \<noteq> ''log_entry'' \<and> snd (ParseRecord m key s) = m) \<and>
   (key = ''log_entry'' \<longrightarrow> fst (ParseRecord m key s) = Inr ())"
  by (simp add: ParseRecord_def Let_def)

theorem C5_ParseRecord_error_witness:
  "ParseRecord [] ''header'' \<lparr>r_timestamp = 1609459200, r_command = ''ls -la''\<rparr> =
     (Inl (ParseError ''Unable to parse record, unknown structure: header''), [])"
  using C5_ParseRecord_error [where m = "[]" and key = "''header''"
      and s = "\<lparr>r_timestamp = 1609459200, r_command = ''ls -la''\<rparr>"]
  by (simp add: ParseRecord_def)

section \<open>Bash history: the verification probe\<close>

lemma anywhere_here: "P s \<Longrightarrow> anywhere P s"
  by (cases s) auto

lemma anywhere_append: "anywhere P r \<Longrightarrow> anywhere P (p @ r)"
  by (induction p) auto

lemma anywhere_dropWhile: "anywhere P (dropWhile Q s) \<Longrightarrow> anywhere P s"
  using anywhere_append [of P "dropWhile Q s" "takeWhile Q s"] by simp

lemma anywhere_mono: "(\<And>s. P s \<Longrightarrow> Q s) \<Longrightarrow> anywhere P s \<Longrightarrow> anywhere Q s"
  by (induction s) auto

lemma line_start_regex_suffix:
  assumes "line_start_regex bol s = Some r"
  shows "anywhere P r \<Longrightarrow> anywhere P s"
proof -
  assume a: "anywhere P r"
  from assms obtain w t where s: "s = w # t"
    by (cases s) (auto simp: line_start_regex_def split: if_splits)
  from assms s have "r = dropWhile (\<lambda>c. c \<noteq> CHR 0x0A) t \<or>
      (\<exists>x u. t = x # u \<and> r = dropWhile (\<lambda>c. c \<noteq> CHR 0x0A) u)"
    by (auto simp: line_start_regex_def split: if_splits list.splits)
  then show ?thesis
  proof
    assume "r = dropWhile (\<lambda>c. c \<noteq> CHR 0x0A) t"
    with a have "anywhere P t" by (simp add: anywhere_dropWhile)
    with s show ?thesis by simp
  next
    assume "\<exists>x u. t = x # u \<and> r = dropWhile (\<lambda>c. c \<noteq> CHR 0x0A) u"
    then obtain x u where t: "t = x # u" and r: "r = dropWhile (\<lambda>c. c \<noteq> CHR 0x0A) u" by blast
    with a have "anywhere P u" by (simp add: anywhere_dropWhile)
    with s t show ?thesis by simp
  qed
qed

lemma uncommented_is_anchor: "uncommented_anchor_here s \<Longrightarrow> anchor_here s"
  by (cases s) (auto simp: uncommented_anchor_here_def anchor_here_def)

lemma VERIFICATION_GRAMMAR_anchor:
  assumes "VERIFICATION_GRAMMAR bol s"
  shows "anywhere uncommented_anchor_here s"
proof -
  from assms obtain r where r: "line_start_regex bol s = Some r"
    by (auto simp: VERIFICATION_GRAMMAR_def split: option.splits)
  with assms obtain t r' where ts: "TIMESTAMP (preParse r) = Some (t, r')"
    and nc: "\<not> pythonStyleComment r'"
    by (auto simp: VERIFICATION_GRAMMAR_def split: option.splits)
  from TIMESTAMP_Some [OF ts] have a: "anchor_here (preParse r)"
    and r': "r' = dropWhile nums (dropWhile white (tl (preParse r)))" by simp_all
  from a obtain u where u: "preParse r = CHR ''#'' # u"
    by (cases "preParse r") (auto simp: anchor_here_def)
  from a nc r' u have "uncommented_anchor_here (preParse r)"
    by (simp add: uncommented_anchor_here_def anchor_here_def)
  then have "anywhere uncommented_anchor_here (preParse r)" by (rule anywhere_here)
  then have "anywhere uncommented_anchor_here r"
    unfolding preParse_def by (rule anywhere_dropWhile)
  with r show ?thesis by (rule line_start_regex_suffix)
qed

lemma scanString_anchor: "scanString bol s \<Longrightarrow> anywhere uncommented_anchor_here s"
proof (induction s arbitrary: bol)
  case Nil
  then show ?case using VERIFICATION_GRAMMAR_anchor [of bol "[]"] by simp
next
  case (Cons c cs)
  show ?case
  proof (cases "white c")
    case True
    with Cons.prems have "scanString (c = CHR 0x0A) cs" by simp
    from Cons.IH [OF this] show ?thesis by simp
  next
    case False
    with Cons.prems have "VERIFICATION_GRAMMAR bol (c # cs) \<or> scanString False cs" by simp
    then show ?thesis
    proof
      assume "VERIFICATION_GRAMMAR bol (c # cs)"
      then show ?thesis by (rule VERIFICATION_GRAMMAR_anchor)
    next
      assume "scanString False cs"
      from Cons.IH [OF this] show ?thesis by simp
    qed
  qed
qed

lemma white_tab: "white (CHR 0x09)" and white_space: "white CHR '' ''"
  and nums_not_white: "nums c \<Longrightarrow> \<not> white c"
  and not_nums_tab: "\<not> nums (CHR 0x09)" and not_nums_space: "\<not> nums CHR '' ''"
  by (auto simp: white_def nums_def)

lemma dropWhile_white_expandtabs:
  "\<exists>c'. dropWhile white (expandtabs c xs) = expandtabs c' (dropWhile white xs)"
proof (induction xs arbitrary: c)
  case Nil
  show ?case by simp
next
  case (Cons x xs)
  show ?case
  proof (cases "white x")
    case True
    have "dropWhile white (expandtabs c (x # xs)) =
            dropWhile white (expandtabs (if x = CHR 0x09 then c + (8 - c mod 8)
               else if x = CHR 0x0A \<or> x = CHR 0x0D then 0 else c + 1) xs)"
      using True by (auto simp: white_space dropWhile_append3 dropWhile_append)
    with Cons.IH True show ?thesis by auto
  next
    case False
    then have "x \<noteq> CHR 0x09" using white_tab by auto
    with False have "dropWhile white (expandtabs c (x # xs)) = expandtabs c (dropWhile white (x # xs))"
      by auto
    then show ?thesis by blast
  qed
qed

lemma takeWhile_nums_expandtabs: "takeWhile nums (expandtabs c ys) = takeWhile nums ys"
proof (induction ys arbitrary: c)
  case Nil
  show ?case by simp
next
  case (Cons y ys)
  show ?case
  proof (cases "y = CHR 0x09")
    case True
    have "0 < 8 - c mod 8" by simp
    then obtain k where k: "8 - c mod 8 = Suc k" by (cases "8 - c mod 8") auto
    with True show ?thesis by (simp add: not_nums_tab not_nums_space)
  next
    case False
    with Cons.IH show ?thesis by auto
  qed
qed

lemma dropWhile_nums_expandtabs:
  "\<exists>c'. dropWhile nums (expandtabs c ys) = expandtabs c' (dropWhile nums ys)"
proof (induction ys arbitrary: c)
  case Nil
  show ?case by simp
next
  case (Cons y ys)
  show ?case
  proof (cases "nums y")
    case True
    then have "y \<noteq> CHR 0x09" using not_nums_tab by auto
    with True Cons.IH show ?thesis by auto
  next
    case False
    have "dropWhile nums (expandtabs c (y # ys)) = expandtabs c (y # ys)"
    proof (cases "y = CHR 0x09")
      case True
      have "0 < 8 - c mod 8" by simp
      then obtain k where k: "8 - c mod 8 = Suc k" by (cases "8 - c mod 8") auto
      with True show ?thesis by (simp add: not_nums_space)
    next
      case F: False
      with False show ?thesis by auto
    qed
    with False show ?thesis by (metis dropWhile.simps(2))
  qed
qed

lemma pythonStyleComment_expandtabs:
  "pythonStyleComment (expandtabs c ys) = pythonStyleComment ys"
proof -
  obtain c' where c': "dropWhile white (expandtabs c ys) = expandtabs c' (dropWhile white ys)"
    using dropWhile_white_expandtabs by blast
  show ?thesis
  proof (cases "dropWhile white ys")
    case Nil
    have e: "dropWhile white (expandtabs c ys) = []" unfolding c' Nil by simp
    show ?thesis unfolding pythonStyleComment_def preParse_def e Nil by simp
  next
    case (Cons z zs)
    then have "\<not> white z" by (metis hd_dropWhile list.distinct(1) list.sel(1))
    then have "z \<noteq> CHR 0x09" using white_tab by auto
    then have e: "\<exists>t. dropWhile white (expandtabs c ys) = z # t" unfolding c' Cons by simp
    then obtain t where t: "dropWhile white (expandtabs c ys) = z # t" by blast
    show ?thesis unfolding pythonStyleComment_def preParse_def t Cons by simp
  qed
qed

lemma uncommented_anchor_expandtabs:
  "uncommented_anchor_here (x # expandtabs c xs) = uncommented_anchor_here (x # xs)"
proof -
  obtain c1 where c1: "dropWhile white (expandtabs c xs) = expandtabs c1 (dropWhile white xs)"
    using dropWhile_white_expandtabs by blast
  obtain c2 where c2: "dropWhile nums (expandtabs c1 (dropWhile white xs)) =
      expandtabs c2 (dropWhile nums (dropWhile white xs))"
    using dropWhile_nums_expandtabs by blast
  show ?thesis
    by (simp add: uncommented_anchor_here_def c1 c2 digits_9_10_def takeWhile_nums_expandtabs
        pythonStyleComment_expandtabs)
qed

lemma anywhere_spaces:
  "anywhere uncommented_anchor_here (replicate k CHR '' '' @ e) \<Longrightarrow>
   anywhere uncommented_anchor_here e"
  by (induction k) (auto simp: uncommented_anchor_here_def)

lemma anywhere_expandtabs:
  "anywhere uncommented_anchor_here (expandtabs c xs) \<Longrightarrow> anywhere uncommented_anchor_here xs"
proof (induction xs arbitrary: c)
  case Nil
  then show ?case by simp
next
  case (Cons x xs)
  show ?case
  proof (cases "x = CHR 0x09")
    case True
    with Cons.prems have "anywhere uncommented_anchor_here (expandtabs (c + (8 - c mod 8)) xs)"
      using anywhere_spaces by simp
    from Cons.IH [OF this] show ?thesis by simp
  next
    case False
    let ?c = "if x = CHR 0x0A \<or> x = CHR 0x0D then 0 else c + 1"
    from False Cons.prems have "uncommented_anchor_here (x # expandtabs ?c xs) \<or>
        anywhere uncommented_anchor_here (expandtabs ?c xs)" by auto
    then show ?thesis
    proof
      assume "uncommented_anchor_here (x # expandtabs ?c xs)"
      then show ?thesis by (simp only: uncommented_anchor_expandtabs anywhere.simps) simp
    next
      assume "anywhere uncommented_anchor_here (expandtabs ?c xs)"
      from Cons.IH [OF this] show ?thesis by simp
    qed
  qed
qed

lemma VerifyStructure_anchor:
  "VerifyStructure line \<Longrightarrow> anywhere uncommented_anchor_here line"
  unfolding VerifyStructure_def by (rule anywhere_expandtabs [OF scanString_anchor])


text \<open>
  Claim C6, as stated, fails: the sample \<^verbatim>\<open>ls\<close>, newline, \<^verbatim>\<open># 123456789\<close> has no marker
  immediately followed by nine or ten digits, yet the probe accepts it, because pyparsing
  skips the blank between the marker and the digits.
\<close>

theorem C6_counterexample:
  "\<not> anywhere strict_anchor_here ''ls\<newline># 123456789'' \<and> VerifyStructure ''ls\<newline># 123456789''"
  by code_simp

text \<open>
  Claim C6, amended: \<^verbatim>\<open>VerifyStructure\<close> returns false for every sample in which no marker
  is followed, after whitespace or none, by a run of nine or ten digits; and it returns
  false for every sample in which each such anchor is followed by a comment (after
  whitespace or none, a \<^verbatim>\<open>#\<close>), although digits follow the marker.
\<close>

theorem C6_VerifyStructure_false:
  "(\<not> anywhere anchor_here line \<longrightarrow> \<not> VerifyStructure line) \<and>
   (\<not> anywhere uncommented_anchor_here line \<longrightarrow> \<not> VerifyStructure line)"
  using VerifyStructure_anchor [of line]
    anywhere_mono [of uncommented_anchor_here anchor_here line, OF uncommented_is_anchor]
  by blast

lemma no_anchor_sample: "\<not> anywhere anchor_here ''ls -la\<newline>whoami''"
  by code_simp

lemma commented_anchor_sample:
  "anywhere anchor_here ''ls\<newline>#1234567890\<newline>#foo'' \<and>
   \<not> anywhere uncommented_anchor_here ''ls\<newline>#1234567890\<newline>#foo''"
  by code_simp

theorem C6_VerifyStructure_false_witness:
  "\<not> anywhere anchor_here ''ls -la\<newline>whoami'' \<and> \<not> VerifyStructure ''ls -la\<newline>whoami'' \<and>
   anywhere anchor_here ''ls\<newline>#1234567890\<newline>#foo'' \<and>
   \<not> anywhere uncommented_anchor_here ''ls\<newline>#1234567890\<newline>#foo'' \<and>
   \<not> VerifyStructure ''ls\<newline>#1234567890\<newline>#foo''"
  using C6_VerifyStructure_false [of "''ls -la\<newline>whoami''"]
    C6_VerifyStructure_false [of "''ls\<newline>#1234567890\<newline>#foo''"]
    no_anchor_sample commented_anchor_sample
  by blast

end
